theory Spec2Isabelle
  imports Main
begin

section \<open>Python string primitives used by the GUI\<close>

text \<open>
  Python strings are sequences of code points. A character is modelled by an Isabelle
  \<open>char\<close>, read as the code point of the same number, so the model covers the code points
  U+0000 to U+00FF. The predicates below are the tables of \<open>str.isspace\<close>,
  \<open>str.isdigit\<close>, \<open>str.isdecimal\<close> and \<open>str.isprintable\<close> on that range.
\<close>

datatype py_error = TypeError | IndexError | ValueError | ZeroDivisionError

definition code :: "char \<Rightarrow> nat" where
  "code c = of_char c"

definition isspace_char :: "char \<Rightarrow> bool" where
  "isspace_char c =
     ((9 \<le> code c \<and> code c \<le> 13) \<or> (28 \<le> code c \<and> code c \<le> 32)
      \<or> code c = 133 \<or> code c = 160)"

definition isdecimal_char :: "char \<Rightarrow> bool" where
  "isdecimal_char c = (48 \<le> code c \<and> code c \<le> 57)"

definition isdigit_char :: "char \<Rightarrow> bool" where
  \<comment> \<open>the decimal digits and the superscripts U+00B2, U+00B3, U+00B9\<close>
  "isdigit_char c =
     (isdecimal_char c \<or> code c = 178 \<or> code c = 179 \<or> code c = 185)"

definition isprintable_char :: "char \<Rightarrow> bool" where
  "isprintable_char c =
     ((32 \<le> code c \<and> code c \<le> 126) \<or> (161 \<le> code c \<and> code c \<noteq> 173))"

definition isdigit :: "string \<Rightarrow> bool" where
  \<comment> \<open>\<open>str.isdigit\<close>: every character is a digit and there is at least one\<close>
  "isdigit s = (s \<noteq> [] \<and> list_all isdigit_char s)"

definition isprintable :: "string \<Rightarrow> bool" where
  \<comment> \<open>\<open>str.isprintable\<close>: every character is printable; true of the empty string\<close>
  "isprintable s = list_all isprintable_char s"

definition strip :: "string \<Rightarrow> string" where
  \<comment> \<open>\<open>str.strip()\<close>: whitespace removed at both ends\<close>
  "strip s = rev (dropWhile isspace_char (rev (dropWhile isspace_char s)))"

fun split :: "char \<Rightarrow> string \<Rightarrow> string list" where
  \<comment> \<open>\<open>str.split(sep)\<close> for a separator of one character\<close>
  "split sep [] = [[]]"
| "split sep (c # cs) =
     (if c = sep then [] # split sep cs
      else (case split sep cs of
              [] \<Rightarrow> [[c]]
            | t # ts \<Rightarrow> (c # t) # ts))"

fun digits_value :: "int \<Rightarrow> string \<Rightarrow> int option" where
  \<comment> \<open>decimal digits, a single underscore allowed between two digits\<close>
  "digits_value acc [] = Some acc"
| "digits_value acc (c # cs) =
     (if isdecimal_char c then digits_value (acc * 10 + (int (code c) - 48)) cs
      else if c = CHR ''_'' then
        (case cs of
           [] \<Rightarrow> None
         | d # _ \<Rightarrow> if isdecimal_char d then digits_value acc cs else None)
      else None)"

definition int_max_str_digits :: nat where
  \<comment> \<open>the default of \<open>sys.get_int_max_str_digits()\<close>: \<open>int\<close> raises \<open>ValueError\<close> on a
      literal with more digits (underscores, sign and white space are not counted)\<close>
  "int_max_str_digits = 4300"

definition unsigned_literal :: "string \<Rightarrow> int option" where
  "unsigned_literal s =
     (case s of
        [] \<Rightarrow> None
      | c # _ \<Rightarrow>
          if isdecimal_char c then
            (if length (filter isdecimal_char s) > int_max_str_digits then None
             else digits_value 0 s)
          else None)"

definition int_space_char :: "char \<Rightarrow> bool" where
  \<comment> \<open>the white space \<open>int\<close> skips around a literal: not U+001C to U+001F\<close>
  "int_space_char c =
     ((9 \<le> code c \<and> code c \<le> 13) \<or> code c = 32 \<or> code c = 133 \<or> code c = 160)"

definition int_strip :: "string \<Rightarrow> string" where
  "int_strip s = rev (dropWhile int_space_char (rev (dropWhile int_space_char s)))"

definition py_int :: "string \<Rightarrow> int option" where
  \<comment> \<open>\<open>int(s)\<close> in base 10; \<open>None\<close> is the \<open>ValueError\<close>\<close>
  "py_int s =
     (case int_strip s of
        [] \<Rightarrow> None
      | c # cs \<Rightarrow>
          if c = CHR ''-'' then map_option uminus (unsigned_literal cs)
          else if c = CHR ''+'' then unsigned_literal cs
          else unsigned_literal (c # cs))"

fun str_nat :: "nat \<Rightarrow> string" where
  \<comment> \<open>\<open>str(n)\<close> for a natural number, as an f-string formats it\<close>
  "str_nat n =
     (if n < 10 then [char_of (48 + n)]
      else str_nat (n div 10) @ [char_of (48 + n mod 10)])"

declare str_nat.simps [simp del]

definition str_int :: "int \<Rightarrow> string" where
  "str_int i = (if i < 0 then CHR ''-'' # str_nat (nat (- i)) else str_nat (nat i))"

section \<open>Command line: the human agent ids\<close>

text \<open>
  \<^verbatim>\<open>
  human_agent_ids = []
  if args.human_agents.strip():
      human_agent_ids = [int(x.strip()) for x in args.human_agents.split(',')
                         if x.strip().isdigit()]
  \<close>
  The comprehension stops at the first \<open>int\<close> that raises.
\<close>

fun convert_tokens :: "string list \<Rightarrow> py_error + int list" where
  "convert_tokens [] = Inr []"
| "convert_tokens (x # xs) =
     (if isdigit (strip x) then
        (case py_int (strip x) of
           None \<Rightarrow> Inl ValueError
         | Some n \<Rightarrow>
             (case convert_tokens xs of
                Inl e \<Rightarrow> Inl e
              | Inr ns \<Rightarrow> Inr (n # ns)))
      else convert_tokens xs)"

definition parse_human_agents :: "string \<Rightarrow> py_error + int list" where
  "parse_human_agents human_agents =
     (if strip human_agents \<noteq> [] then convert_tokens (split CHR '','' human_agents)
      else Inr [])"

section \<open>Agents, events and the state of the GUI\<close>

text \<open>
  An agent is created by the external agent initialiser; the GUI reads the flag
  \<open>is_human\<close> (\<open>hasattr(agent, 'is_human') and agent.is_human\<close>) and writes the four
  fields of the wizard. The method \<open>update_current_skill\<close> belongs to the agent class, which
  is outside this file: the model records every invocation with its arguments in
  \<open>skill_updates\<close>.
\<close>

record agent =
  is_human :: bool
  op :: string
  rss_to_collect :: string
  rss_to_share :: string
  target_agent_id :: int
  skill_updates :: "(string \<times> string \<times> string \<times> int) list"

datatype key =
    K_ESCAPE | K_RETURN | K_BACKSPACE | K_p | K_h | K_i | K_QUESTION
  | K_a | K_d | K_w | K_s | K_SPACE | K_TAB | K_r | K_t | K_f
  | K_1 | K_2 | K_3 | K_4 | K_5 | K_6
  | K_OTHER int

datatype event =
    QUIT
  | KEYDOWN key string                  \<comment> \<open>\<open>event.key\<close>, \<open>event.unicode\<close>\<close>
  | MOUSEBUTTONDOWN int "int \<times> int"     \<comment> \<open>\<open>event.button\<close>, \<open>event.pos\<close>\<close>
  | OTHER_EVENT

record rect =
  left :: int
  top :: int
  width :: int
  height :: int

definition Rect :: "int \<Rightarrow> int \<Rightarrow> int \<Rightarrow> int \<Rightarrow> rect" where
  "Rect x y w h = \<lparr>left = x, top = y, width = w, height = h\<rparr>"

definition collidepoint :: "rect \<Rightarrow> int \<times> int \<Rightarrow> bool" where
  \<comment> \<open>a point on the right or bottom edge is outside\<close>
  "collidepoint r pos =
     (left r \<le> fst pos \<and> fst pos < left r + width r
      \<and> top r \<le> snd pos \<and> snd pos < top r + height r)"

text \<open>
  The collaborators of one simulation step (action processor, environment manager, state,
  context and thinking managers, logger) are outside this file. The model takes their joint
  effect as a parameter: from the agents, the environment and the current step to the
  agents and the environment after the step and the \<open>done\<close> flag of the environment. The
  state keeps the trace of the collaborator calls the GUI has made.
\<close>

datatype collaborator_call =
    Process_all_agent_actions | Collect_agent_actions | Step_environment
  | Update_crafting_stations | Update_all_agent_states
  | Identify_agents_needing_thought | Create_agent_contexts
  | Process_agent_thinking_parallel | Update_agents_from_responses
  | Show_step_report

type_synonym 'e collaborators = "agent list \<Rightarrow> 'e \<Rightarrow> int \<Rightarrow> agent list \<times> 'e \<times> bool"

record 'e gui =
  human_agent_ids :: "int list"
  n_players :: int
  max_steps :: int
  agents :: "agent list"
  env :: 'e
  current_step :: int
  running :: bool
  paused :: bool
  current_human_agent :: "nat option"
  waiting_for_human_input :: bool
  show_help :: bool
  show_inventory :: bool
  input_mode :: bool
  input_prompt :: string
  input_field :: string
  input_type :: string
  printed :: "string list"              \<comment> \<open>the lines written by \<open>print\<close>\<close>
  calls :: "collaborator_call list"

definition print :: "string \<Rightarrow> 'e gui \<Rightarrow> 'e gui" where
  "print line s = s\<lparr>printed := printed s @ [line]\<rparr>"

definition controls_help :: "string list" where
  \<comment> \<open>the lines \<open>__init__\<close> prints\<close>
  "controls_help =
     [''Fixed Advanced GUI Controls:'',
      ''  h: Human agent action selection'',
      ''  p: Pause/Resume simulation'',
      ''  i: Show/hide inventory'',
      ''  ?: Show/hide help'',
      ''  ESC: Quit'',
      ''  Mouse: Click buttons for actions'',
      ''  ENTER: Confirm input (when in input mode)'']"

definition init :: "int list \<Rightarrow> int \<Rightarrow> int \<Rightarrow> agent list \<Rightarrow> 'e \<Rightarrow> 'e gui" where
  \<comment> \<open>\<open>__init__\<close>, with the agents and the environment the external initialisers return\<close>
  "init ids n m ags e =
     \<lparr>human_agent_ids = ids, n_players = n, max_steps = m, agents = ags, env = e,
      current_step = 0, running = True, paused = False, current_human_agent = None,
      waiting_for_human_input = False, show_help = False, show_inventory = False,
      input_mode = False, input_prompt = [], input_field = [], input_type = [],
      printed = controls_help, calls = []\<rparr>"

definition keymap :: "key \<Rightarrow> string option" where
  "keymap k =
     (case k of
        K_a \<Rightarrow> Some ''move_left'' | K_d \<Rightarrow> Some ''move_right''
      | K_w \<Rightarrow> Some ''move_up'' | K_s \<Rightarrow> Some ''move_down''
      | K_SPACE \<Rightarrow> Some ''do'' | K_TAB \<Rightarrow> Some ''sleep''
      | K_r \<Rightarrow> Some ''place_stone'' | K_t \<Rightarrow> Some ''place_table''
      | K_f \<Rightarrow> Some ''place_furnace'' | K_p \<Rightarrow> Some ''place_plant''
      | K_1 \<Rightarrow> Some ''make_wood_pickaxe'' | K_2 \<Rightarrow> Some ''make_stone_pickaxe''
      | K_3 \<Rightarrow> Some ''make_iron_pickaxe'' | K_4 \<Rightarrow> Some ''make_wood_sword''
      | K_5 \<Rightarrow> Some ''make_stone_sword'' | K_6 \<Rightarrow> Some ''make_iron_sword''
      | _ \<Rightarrow> None)"

definition action_buttons :: "string list" where
  "action_buttons =
     [''Navigator'', ''share'', ''noop'', ''move_left'', ''move_right'', ''move_up'',
      ''move_down'', ''do'', ''sleep'']"

definition control_buttons :: "(string \<times> int \<times> int) list" where
  "control_buttons =
     [(''pause'', 610, 750), (''human_action'', 700, 750), (''help'', 790, 750),
      (''inventory'', 880, 750)]"

definition create_buttons :: "(string \<times> rect) list" where
  \<comment> \<open>the button registry in insertion order; all identifiers are distinct\<close>
  "create_buttons =
     map (\<lambda>(i, action).
            (action, Rect (610 + (int i mod 3) * (80 + 10)) (650 + (int i div 3) * (30 + 5)) 80 30))
         (enumerate 0 action_buttons)
     @ map (\<lambda>(action, x, y). (action, Rect x y 80 30)) control_buttons"

section \<open>The operations of the GUI\<close>

definition handle_action :: "string \<Rightarrow> 'e gui \<Rightarrow> 'e gui" where
  "handle_action action s = print (''Action selected: '' @ action) s"

definition human_agents :: "'e gui \<Rightarrow> nat list" where
  \<comment> \<open>\<open>[i for i, agent in enumerate(self.agents) if ... agent.is_human]\<close>\<close>
  "human_agents s = map fst (filter (\<lambda>(i, a). is_human a) (enumerate 0 (agents s)))"

definition operation_prompt :: "nat \<Rightarrow> string" where
  "operation_prompt i =
     ''Human Agent '' @ str_nat i @ '' - Enter operation type (Navigator/share/noop/etc):''"

definition start_human_action_selection :: "'e gui \<Rightarrow> 'e gui" where
  "start_human_action_selection s =
     (case human_agents s of
        [] \<Rightarrow> print ''No human agents available'' s
      | h # _ \<Rightarrow>
          let i = (case current_human_agent s of None \<Rightarrow> h | Some j \<Rightarrow> j)
          in s\<lparr>current_human_agent := Some i, input_mode := True, input_type := ''op'',
               input_prompt := operation_prompt i, input_field := []\<rparr>)"

definition default_if_blank :: "string \<Rightarrow> string \<Rightarrow> string" where
  \<comment> \<open>\<open>v = self.input_field.strip(); if not v: v = d\<close>\<close>
  "default_if_blank d field = (if strip field = [] then d else strip field)"

definition parse_target :: "string \<Rightarrow> int" where
  \<comment> \<open>\<open>try: int(self.input_field.strip()) except ValueError: -1\<close>\<close>
  "parse_target field = (case py_int (strip field) of None \<Rightarrow> - 1 | Some n \<Rightarrow> n)"

definition current_agent :: "'e gui \<Rightarrow> py_error + nat \<times> agent" where
  \<comment> \<open>\<open>self.agents[self.current_human_agent]\<close>: \<open>None\<close> is not an index, and an index
      beyond the list raises\<close>
  "current_agent s =
     (case current_human_agent s of
        None \<Rightarrow> Inl TypeError
      | Some i \<Rightarrow> if i < length (agents s) then Inr (i, agents s ! i) else Inl IndexError)"

definition action_set_line :: "nat \<Rightarrow> agent \<Rightarrow> int \<Rightarrow> string" where
  "action_set_line i a t =
     ''[Human Agent '' @ str_nat i @ ''] Action set: op='' @ op a @ '', collect=''
       @ rss_to_collect a @ '', share='' @ rss_to_share a @ '', target_agent_id='' @ str_int t"

definition quote :: string where
  "quote = [char_of (39::nat)]"

definition process_input :: "'e gui \<Rightarrow> py_error + 'e gui" where
  "process_input s =
     (if input_type s = ''op'' then
        (case current_agent s of
           Inl e \<Rightarrow> Inl e
         | Inr (i, a) \<Rightarrow>
             Inr (s\<lparr>agents := (agents s)[i := a\<lparr>op := default_if_blank ''noop'' (input_field s)\<rparr>],
                    input_type := ''collect'',
                    input_prompt := ''Enter resource to collect (or '' @ quote
                                      @ ''not_applicable'' @ quote @ ''):'',
                    input_field := []\<rparr>))
      else if input_type s = ''collect'' then
        (case current_agent s of
           Inl e \<Rightarrow> Inl e
         | Inr (i, a) \<Rightarrow>
             Inr (s\<lparr>agents := (agents s)[i := a\<lparr>rss_to_collect :=
                                 default_if_blank ''not_applicable'' (input_field s)\<rparr>],
                    input_type := ''share'',
                    input_prompt := ''Enter resource to share (or '' @ quote
                                      @ ''not_applicable'' @ quote @ ''):'',
                    input_field := []\<rparr>))
      else if input_type s = ''share'' then
        (case current_agent s of
           Inl e \<Rightarrow> Inl e
         | Inr (i, a) \<Rightarrow>
             Inr (s\<lparr>agents := (agents s)[i := a\<lparr>rss_to_share :=
                                 default_if_blank ''not_applicable'' (input_field s)\<rparr>],
                    input_type := ''target'',
                    input_prompt := ''Enter target agent id (or -1 if not applicable):'',
                    input_field := []\<rparr>))
      else if input_type s = ''target'' then
        (let target = parse_target (input_field s) in
         case current_agent s of
           Inl e \<Rightarrow> Inl e
         | Inr (i, a) \<Rightarrow>
             let a1 = a\<lparr>target_agent_id := target\<rparr>;
                 a2 = a1\<lparr>skill_updates := skill_updates a1
                          @ [(op a1, rss_to_collect a1, rss_to_share a1, target)]\<rparr>
             in Inr (print (action_set_line i a2 target)
                       (s\<lparr>agents := (agents s)[i := a2]\<rparr>)
                     \<lparr>input_mode := False, input_field := [], input_type := []\<rparr>))
      else Inr s)"

definition handle_input_event :: "key \<Rightarrow> string \<Rightarrow> 'e gui \<Rightarrow> py_error + 'e gui" where
  "handle_input_event k unicode s =
     (if k = K_ESCAPE then Inr (s\<lparr>input_mode := False, input_field := [], input_type := []\<rparr>)
      else if k = K_RETURN then process_input s
      else if k = K_BACKSPACE then Inr (s\<lparr>input_field := butlast (input_field s)\<rparr>)
      else if isprintable unicode then Inr (s\<lparr>input_field := input_field s @ unicode\<rparr>)
      else Inr s)"

definition handle_normal_event :: "key \<Rightarrow> 'e gui \<Rightarrow> 'e gui" where
  "handle_normal_event k s =
     (if k = K_ESCAPE then s\<lparr>running := False\<rparr>
      else if k = K_p then s\<lparr>paused := \<not> paused s\<rparr>
      else if k = K_h then start_human_action_selection s
      else if k = K_i then s\<lparr>show_inventory := \<not> show_inventory s\<rparr>
      else if k = K_QUESTION then s\<lparr>show_help := \<not> show_help s\<rparr>
      else (case keymap k of Some action \<Rightarrow> handle_action action s | None \<Rightarrow> s))"

definition handle_button_action :: "string \<Rightarrow> 'e gui \<Rightarrow> 'e gui" where
  "handle_button_action button_id s =
     (if button_id = ''pause'' then s\<lparr>paused := \<not> paused s\<rparr>
      else if button_id = ''human_action'' then start_human_action_selection s
      else if button_id = ''help'' then s\<lparr>show_help := \<not> show_help s\<rparr>
      else if button_id = ''inventory'' then s\<lparr>show_inventory := \<not> show_inventory s\<rparr>
      else handle_action button_id s)"

fun click_buttons :: "(string \<times> rect) list \<Rightarrow> int \<times> int \<Rightarrow> 'e gui \<Rightarrow> 'e gui" where
  \<comment> \<open>the loop of \<open>handle_mouse_click\<close>, left at the first button hit\<close>
  "click_buttons [] pos s = s"
| "click_buttons ((button_id, r) # bs) pos s =
     (if collidepoint r pos then handle_button_action button_id s
      else click_buttons bs pos s)"

definition handle_mouse_click :: "int \<times> int \<Rightarrow> 'e gui \<Rightarrow> 'e gui" where
  "handle_mouse_click pos s = click_buttons create_buttons pos s"

definition handle_event :: "event \<Rightarrow> 'e gui \<Rightarrow> py_error + 'e gui" where
  \<comment> \<open>the body of the loop of \<open>handle_events\<close>\<close>
  "handle_event ev s =
     (case ev of
        QUIT \<Rightarrow> Inr (s\<lparr>running := False\<rparr>)
      | KEYDOWN k unicode \<Rightarrow>
          if input_mode s then handle_input_event k unicode s
          else Inr (handle_normal_event k s)
      | MOUSEBUTTONDOWN button pos \<Rightarrow>
          if button = 1 then Inr (handle_mouse_click pos s) else Inr s
      | OTHER_EVENT \<Rightarrow> Inr s)"

fun handle_events :: "event list \<Rightarrow> 'e gui \<Rightarrow> py_error + 'e gui" where
  \<comment> \<open>the events of one frame, in arrival order; an exception ends the loop\<close>
  "handle_events [] s = Inr s"
| "handle_events (ev # evs) s =
     (case handle_event ev s of
        Inl e \<Rightarrow> Inl e
      | Inr s' \<Rightarrow> handle_events evs s')"

definition step_calls :: "collaborator_call list" where
  "step_calls =
     [Process_all_agent_actions, Collect_agent_actions, Step_environment,
      Update_crafting_stations, Update_all_agent_states, Identify_agents_needing_thought,
      Create_agent_contexts, Process_agent_thinking_parallel, Update_agents_from_responses,
      Show_step_report]"

definition run_simulation_step :: "'e collaborators \<Rightarrow> 'e gui \<Rightarrow> 'e gui" where
  "run_simulation_step ext s =
     (if paused s \<or> input_mode s then s
      else
        (case ext (agents s) (env s) (current_step s) of
           (ags, e, done) \<Rightarrow>
             let s1 = s\<lparr>agents := ags, env := e, calls := calls s @ step_calls,
                        current_step := current_step s + 1\<rparr>
             in if done \<or> current_step s1 \<ge> max_steps s1
                then (print ''Simulation completed!'' s1)\<lparr>running := False\<rparr>
                else s1))"

definition render :: "'e gui \<Rightarrow> py_error + unit" where
  \<comment> \<open>drawing changes no field of the GUI; the progress bar divides by \<open>max_steps\<close>\<close>
  "render s = (if max_steps s = 0 then Inl ZeroDivisionError else Inr ())"

definition frame :: "'e collaborators \<Rightarrow> event list \<Rightarrow> 'e gui \<Rightarrow> py_error + 'e gui" where
  \<comment> \<open>one iteration of the loop of \<open>run\<close>\<close>
  "frame ext evs s =
     (case handle_events evs s of
        Inl e \<Rightarrow> Inl e
      | Inr s1 \<Rightarrow>
          let s2 = run_simulation_step ext s1
          in (case render s2 of Inl e \<Rightarrow> Inl e | Inr _ \<Rightarrow> Inr s2))"

fun run_loop :: "'e collaborators \<Rightarrow> event list list \<Rightarrow> 'e gui \<Rightarrow> py_error + 'e gui" where
  \<comment> \<open>the loop \<open>while self.running\<close> of \<open>run\<close>, over the event batches its frames receive\<close>
  "run_loop ext [] s = Inr s"
| "run_loop ext (evs # rest) s =
     (if running s then
        (case frame ext evs s of
           Inl e \<Rightarrow> Inl e
         | Inr s' \<Rightarrow> run_loop ext rest s')
      else Inr s)"

section \<open>Notions used to state the properties\<close>


fun edit :: "event \<Rightarrow> string \<Rightarrow> string" where
  \<comment> \<open>what the text-editing branches of \<open>handle_input_event\<close> do to the buffer\<close>
  "edit (KEYDOWN k unicode) b =
     (if k = K_BACKSPACE then butlast b
      else if isprintable unicode then b @ unicode
      else b)"
| "edit _ b = b"

definition buffer_after :: "event list \<Rightarrow> string \<Rightarrow> string" where
  "buffer_after evs b = fold edit evs b"

definition decimal_value :: "string \<Rightarrow> int" where
  \<comment> \<open>the number a string of decimal digits denotes\<close>
  "decimal_value t = foldl (\<lambda>acc c. acc * 10 + (int (code c) - 48)) 0 t"

definition wizard_invariant :: "'e gui \<Rightarrow> bool" where
  \<comment> \<open>active exactly when the step is not idle, with a designated agent while active\<close>
  "wizard_invariant s =
     ((input_mode s \<longleftrightarrow> input_type s \<noteq> [])
      \<and> (input_mode s \<longrightarrow> current_human_agent s \<noteq> None))"

definition pause_rect :: rect where
  "pause_rect = Rect 610 750 80 30"

definition human_action_rect :: rect where
  "human_action_rect = Rect 700 750 80 30"

section \<open>A scenario\<close>

text \<open>
  Two agents, the second one human-controlled, five steps at most; the collaborators of the
  scenario leave the agents and the environment as they are and never report \<open>done\<close>.
\<close>

definition scenario_agent :: agent where
  "scenario_agent =
     \<lparr>is_human = False, op = [], rss_to_collect = [], rss_to_share = [],
      target_agent_id = 0, skill_updates = []\<rparr>"

definition scenario_gui :: "unit gui" where
  "scenario_gui = init [1] 2 5 [scenario_agent, scenario_agent\<lparr>is_human := True\<rparr>] ()"

definition scenario_no_humans :: "unit gui" where
  "scenario_no_humans = init [] 1 5 [scenario_agent] ()"

definition scenario_two_humans :: "unit gui" where
  "scenario_two_humans =
     init [1, 2] 3 5
       [scenario_agent, scenario_agent\<lparr>is_human := True\<rparr>,
        scenario_agent\<lparr>is_human := True\<rparr>] ()"

definition scenario_ext :: "unit collaborators" where
  "scenario_ext ags e n = (ags, e, False)"

definition typing :: "string \<Rightarrow> event list" where
  \<comment> \<open>one key press for each character of a text\<close>
  "typing text = map (\<lambda>c. KEYDOWN (K_OTHER (int (code c))) [c]) text"

section \<open>Auxiliary facts\<close>

lemma create_buttons_eq:
  "create_buttons =
     [(''Navigator'', Rect 610 650 80 30), (''share'', Rect 700 650 80 30),
      (''noop'', Rect 790 650 80 30), (''move_left'', Rect 610 685 80 30),
      (''move_right'', Rect 700 685 80 30), (''move_up'', Rect 790 685 80 30),
      (''move_down'', Rect 610 720 80 30), (''do'', Rect 700 720 80 30),
      (''sleep'', Rect 790 720 80 30), (''pause'', pause_rect),
      (''human_action'', human_action_rect), (''help'', Rect 790 750 80 30),
      (''inventory'', Rect 880 750 80 30)]"
  by (simp add: create_buttons_def action_buttons_def control_buttons_def
      pause_rect_def human_action_rect_def)

lemma click_pause:
  "collidepoint pause_rect pos \<Longrightarrow> handle_mouse_click pos s = s\<lparr>paused := \<not> paused s\<rparr>"
  by (auto simp add: handle_mouse_click_def create_buttons_eq collidepoint_def Rect_def
      pause_rect_def handle_button_action_def)

lemma click_human_action:
  "collidepoint human_action_rect pos \<Longrightarrow>
     handle_mouse_click pos s = start_human_action_selection s"
  by (auto simp add: handle_mouse_click_def create_buttons_eq collidepoint_def Rect_def
      pause_rect_def human_action_rect_def handle_button_action_def)



lemma enumerate_first_human:
  "map fst (filter (\<lambda>(i, a). is_human a) (enumerate n xs)) = h # hs \<Longrightarrow>
     n \<le> h \<and> h < n + length xs \<and> is_human (xs ! (h - n))
     \<and> (\<forall>j. n \<le> j \<and> j < h \<longrightarrow> \<not> is_human (xs ! (j - n)))"
proof (induction xs arbitrary: n)
  case Nil
  then show ?case by simp
next
  case (Cons x xs)
  show ?case
  proof (cases "is_human x")
    case True
    with Cons.prems show ?thesis by simp
  next
    case False
    note nh = False
    with Cons.prems have "map fst (filter (\<lambda>(i, a). is_human a) (enumerate (Suc n) xs)) = h # hs"
      by simp
    from Cons.IH[OF this] have ih: "Suc n \<le> h" "h < Suc n + length xs"
      "is_human (xs ! (h - Suc n))"
      "\<forall>j. Suc n \<le> j \<and> j < h \<longrightarrow> \<not> is_human (xs ! (j - Suc n))"
      by auto
    have "\<not> is_human ((x # xs) ! (j - n))" if "n \<le> j" "j < h" for j
    proof (cases "j = n")
      case True
      then show ?thesis using nh by simp
    next
      case False
      then have "Suc n \<le> j" using that by simp
      then show ?thesis using ih(4) that by (simp add: nth_Cons')
    qed
    moreover have "(x # xs) ! (h - n) = xs ! (h - Suc n)"
      using ih(1) by (simp add: nth_Cons')
    ultimately show ?thesis using ih by simp
  qed
qed

lemma human_agents_first:
  "human_agents s = h # hs \<Longrightarrow>
     h < length (agents s) \<and> is_human (agents s ! h) \<and> (\<forall>j < h. \<not> is_human (agents s ! j))"
  using enumerate_first_human[of 0 "agents s" h hs] by (simp add: human_agents_def)

lemma human_agents_empty:
  "(human_agents s = []) = (\<forall>a \<in> set (agents s). \<not> is_human a)"
proof -
  have "(map fst (filter (\<lambda>(i, a). is_human a) (enumerate n xs)) = [])
        = (\<forall>a \<in> set xs. \<not> is_human a)" for n and xs :: "agent list"
    by (induction xs arbitrary: n) auto
  then show ?thesis by (simp add: human_agents_def)
qed


lemma start_without_humans:
  "\<forall>a \<in> set (agents s). \<not> is_human a \<Longrightarrow>
     start_human_action_selection s = print ''No human agents available'' s"
  using human_agents_empty[of s] by (simp add: start_human_action_selection_def)

lemma start_fields [simp]:
  "running (start_human_action_selection s) = running s"
  "paused (start_human_action_selection s) = paused s"
  "agents (start_human_action_selection s) = agents s"
  by (simp_all add: start_human_action_selection_def print_def Let_def split: list.split)

lemma handle_action_fields [simp]:
  "running (handle_action a s) = running s"
  "agents (handle_action a s) = agents s"
  "current_human_agent (handle_action a s) = current_human_agent s"
  "input_mode (handle_action a s) = input_mode s"
  "input_type (handle_action a s) = input_type s"
  by (simp_all add: handle_action_def print_def)

lemma handle_button_action_running [simp]:
  "running (handle_button_action b s) = running s"
  by (simp add: handle_button_action_def)

lemma click_buttons_running [simp]:
  "running (click_buttons bs pos s) = running s"
  by (induction bs pos s rule: click_buttons.induct) simp_all

lemma process_input_running:
  "process_input s = Inr s' \<Longrightarrow> running s' = running s"
  by (auto simp: process_input_def print_def Let_def split: if_splits sum.splits)

lemma handle_input_event_running:
  "handle_input_event k u s = Inr s' \<Longrightarrow> running s' = running s"
  by (auto simp: handle_input_event_def process_input_running split: if_splits)

lemma handle_normal_event_running:
  "running (handle_normal_event k s) = (running s \<and> k \<noteq> K_ESCAPE)"
  by (simp add: handle_normal_event_def split: option.split)

lemma strip_idem_blank: "strip f = [] \<Longrightarrow> py_int (strip f) = None"
proof -
  assume b: "strip f = []"
  have "py_int [] = None" by (simp add: py_int_def int_strip_def)
  then show ?thesis using b by simp
qed

lemma current_agent_valid:
  "current_human_agent s = Some i \<Longrightarrow> i < length (agents s) \<Longrightarrow>
     current_agent s = Inr (i, agents s ! i)"
  by (simp add: current_agent_def)

lemma start_preserves_invariant:
  "wizard_invariant s \<Longrightarrow> wizard_invariant (start_human_action_selection s)"
  by (auto simp: wizard_invariant_def start_human_action_selection_def print_def Let_def
      split: list.splits)

lemma process_input_preserves_invariant:
  "wizard_invariant s \<Longrightarrow> process_input s = Inr s' \<Longrightarrow> wizard_invariant s'"
  by (auto simp: wizard_invariant_def process_input_def print_def Let_def
      split: if_splits sum.splits)

lemma handle_button_action_preserves_invariant:
  "wizard_invariant s \<Longrightarrow> wizard_invariant (handle_button_action b s)"
  using start_preserves_invariant[of s]
  by (auto simp: handle_button_action_def wizard_invariant_def handle_action_def print_def)

lemma click_buttons_preserves_invariant:
  "wizard_invariant s \<Longrightarrow> wizard_invariant (click_buttons bs pos s)"
  by (induction bs pos s rule: click_buttons.induct)
     (simp_all add: handle_button_action_preserves_invariant)

lemma handle_normal_event_preserves_invariant:
  "wizard_invariant s \<Longrightarrow> wizard_invariant (handle_normal_event k s)"
  using start_preserves_invariant[of s]
  by (auto simp: handle_normal_event_def wizard_invariant_def handle_action_def print_def
      split: option.splits)

lemma handle_input_event_preserves_invariant:
  "wizard_invariant s \<Longrightarrow> input_mode s \<Longrightarrow> handle_input_event k u s = Inr s' \<Longrightarrow>
     wizard_invariant s'"
  using process_input_preserves_invariant[of s s']
  by (auto simp: handle_input_event_def wizard_invariant_def split: if_splits)

lemma handle_event_preserves_invariant:
  "wizard_invariant s \<Longrightarrow> handle_event ev s = Inr s' \<Longrightarrow> wizard_invariant s'"
proof (cases ev)
  case QUIT
  assume "wizard_invariant s" "handle_event ev s = Inr s'"
  with QUIT show ?thesis by (auto simp: handle_event_def wizard_invariant_def)
next
  case (KEYDOWN k u)
  assume "wizard_invariant s" "handle_event ev s = Inr s'"
  with KEYDOWN show ?thesis
    using handle_input_event_preserves_invariant[of s k u s']
      handle_normal_event_preserves_invariant[of s k]
    by (auto simp: handle_event_def split: if_splits)
next
  case (MOUSEBUTTONDOWN b pos)
  assume "wizard_invariant s" "handle_event ev s = Inr s'"
  with MOUSEBUTTONDOWN show ?thesis
    using click_buttons_preserves_invariant[of s create_buttons pos]
    by (auto simp: handle_event_def handle_mouse_click_def split: if_splits)
next
  case OTHER_EVENT
  assume "wizard_invariant s" "handle_event ev s = Inr s'"
  with OTHER_EVENT show ?thesis by (auto simp: handle_event_def)
qed

lemma handle_events_preserves_invariant:
  "wizard_invariant s \<Longrightarrow> handle_events evs s = Inr s' \<Longrightarrow> wizard_invariant s'"
  by (induction evs arbitrary: s)
     (auto split: sum.splits dest: handle_event_preserves_invariant)

lemma run_simulation_step_preserves_invariant:
  "wizard_invariant s \<Longrightarrow> wizard_invariant (run_simulation_step ext s)"
  by (auto simp: run_simulation_step_def wizard_invariant_def print_def Let_def
      split: prod.splits)

lemma frame_preserves_invariant:
  "wizard_invariant s \<Longrightarrow> frame ext evs s = Inr s' \<Longrightarrow> wizard_invariant s'"
  by (auto simp: frame_def Let_def split: sum.splits
      dest: handle_events_preserves_invariant run_simulation_step_preserves_invariant)

lemma run_loop_preserves_invariant:
  "wizard_invariant s \<Longrightarrow> run_loop ext batches s = Inr s' \<Longrightarrow> wizard_invariant s'"
  by (induction batches arbitrary: s)
     (auto split: sum.splits if_splits dest: frame_preserves_invariant)

lemma scenario_started:
  "start_human_action_selection scenario_gui
     = scenario_gui\<lparr>current_human_agent := Some 1, input_mode := True, input_type := ''op'',
                    input_prompt := operation_prompt 1, input_field := []\<rparr>"
  by (simp add: start_human_action_selection_def scenario_gui_def init_def human_agents_def
      scenario_agent_def)








lemma digits_value_decimal:
  "list_all isdecimal_char t \<Longrightarrow>
     digits_value acc t = Some (foldl (\<lambda>acc c. acc * 10 + (int (code c) - 48)) acc t)"
  by (induction t arbitrary: acc) simp_all

lemma trim_unchanged:
  assumes "t \<noteq> []" and "\<not> P (hd t)" and "\<not> P (last t)"
  shows "rev (dropWhile P (rev (dropWhile P t))) = t"
proof -
  have front: "dropWhile P t = t" using assms(1,2) by (cases t) simp_all
  have "rev t \<noteq> []" "\<not> P (hd (rev t))" using assms(1,3) by (simp_all add: hd_rev)
  then have "dropWhile P (rev t) = rev t" by (cases "rev t") simp_all
  then show ?thesis by (simp add: front)
qed

lemma decimal_not_space:
  "isdecimal_char c \<Longrightarrow> \<not> int_space_char c"
  "isdecimal_char c \<Longrightarrow> \<not> isspace_char c"
  by (auto simp: isdecimal_char_def int_space_char_def isspace_char_def)

lemma decimal_ends:
  assumes "t \<noteq> []" and "list_all isdecimal_char t"
  shows "isdecimal_char (hd t)" and "isdecimal_char (last t)"
  using assms by (simp_all add: list_all_iff)

lemma int_strip_decimal:
  "t \<noteq> [] \<Longrightarrow> list_all isdecimal_char t \<Longrightarrow> int_strip t = t"
  unfolding int_strip_def
  by (rule trim_unchanged) (simp_all add: decimal_ends decimal_not_space)


lemma unsigned_literal_decimal:
  assumes "t \<noteq> []" and "list_all isdecimal_char t" and "length t \<le> int_max_str_digits"
  shows "unsigned_literal t = Some (decimal_value t)"
proof -
  from assms(1) obtain c cs where t: "t = c # cs" by (cases t) auto
  have c: "isdecimal_char c" using assms(2) t by simp
  have "filter isdecimal_char t = t" using assms(2) by (simp add: list_all_iff)
  then have "\<not> length (filter isdecimal_char t) > int_max_str_digits"
    using assms(3) by simp
  then show ?thesis
    using c digits_value_decimal[OF assms(2), of 0]
    by (simp add: unsigned_literal_def t decimal_value_def)
qed


lemma decimal_not_sign:
  "isdecimal_char c \<Longrightarrow> c \<noteq> CHR ''-''" "isdecimal_char c \<Longrightarrow> c \<noteq> CHR ''+''"
  by (auto simp: isdecimal_char_def code_def)

lemma py_int_decimal:
  assumes "t \<noteq> []" and "list_all isdecimal_char t" and "length t \<le> int_max_str_digits"
  shows "py_int t = Some (decimal_value t)"
proof -
  from assms(1) obtain c cs where t: "t = c # cs" by (cases t) auto
  have c: "isdecimal_char c" using assms(2) t by simp
  have "int_strip (c # cs) = c # cs"
    using int_strip_decimal[OF assms(1,2)] t by simp
  then show ?thesis
    using decimal_not_sign[OF c] unsigned_literal_decimal[OF assms]
    by (simp add: py_int_def t)
qed



lemma set_strip: "set (strip t) \<subseteq> set t"
proof -
  have "set (dropWhile isspace_char (rev (dropWhile isspace_char t)))
          \<subseteq> set (rev (dropWhile isspace_char t))"
    by (rule set_dropWhileD[THEN subsetI])
  also have "\<dots> \<subseteq> set t"
    using set_dropWhileD[of _ isspace_char t] by auto
  finally show ?thesis by (simp add: strip_def)
qed

lemma set_split: "x \<in> set (split sep s) \<Longrightarrow> set x \<subseteq> set s"
proof (induction s arbitrary: x)
  case Nil
  then show ?case by simp
next
  case (Cons c s)
  show ?case
  proof (cases "c = sep")
    case True
    with Cons.prems have "x = [] \<or> x \<in> set (split sep s)" by simp
    then show ?thesis using Cons.IH by auto
  next
    case False
    obtain t ts where sp: "split sep s = t # ts"
      by (cases "split sep s") (cases s, simp_all split: if_splits list.splits)
    have "set t \<subseteq> set s" using Cons.IH[of t] sp by simp
    moreover have "x = c # t \<or> x \<in> set (split sep s)"
      using Cons.prems False sp by auto
    ultimately show ?thesis using Cons.IH[of x] by auto
  qed
qed

lemma convert_tokens_decimal:
  assumes "\<forall>x \<in> set xs. \<forall>c \<in> set x. isdigit_char c \<longrightarrow> isdecimal_char c"
    and "\<forall>x \<in> set xs. length (strip x) \<le> int_max_str_digits"
  shows "convert_tokens xs
           = Inr (map (\<lambda>x. decimal_value (strip x)) (filter (\<lambda>x. isdigit (strip x)) xs))"
  using assms
proof (induction xs)
  case Nil
  then show ?case by simp
next
  case (Cons x xs)
  have ih: "convert_tokens xs
           = Inr (map (\<lambda>x. decimal_value (strip x)) (filter (\<lambda>x. isdigit (strip x)) xs))"
    using Cons by simp
  show ?case
  proof (cases "isdigit (strip x)")
    case True
    have "list_all isdecimal_char (strip x)"
      using True Cons.prems set_strip[of x] by (auto simp: isdigit_def list_all_iff)
    moreover have "strip x \<noteq> []" using True by (simp add: isdigit_def)
    moreover have "length (strip x) \<le> int_max_str_digits" using Cons.prems by simp
    ultimately have "py_int (strip x) = Some (decimal_value (strip x))"
      by (simp add: py_int_decimal)
    then show ?thesis using True ih by simp
  next
    case False
    then show ?thesis using ih by simp
  qed
qed

lemma split_blank:
  "strip s = [] \<Longrightarrow> filter (\<lambda>x. isdigit (strip x)) (split CHR '','' s) = []"
proof -
  assume b: "strip s = []"
  have all_space: "\<forall>c \<in> set s. isspace_char c"
  proof -
    from b have "dropWhile isspace_char (rev (dropWhile isspace_char s)) = []"
      by (simp add: strip_def)
    then have "\<forall>c \<in> set (dropWhile isspace_char s). isspace_char c"
      by (simp add: dropWhile_eq_Nil_conv)
    moreover have "dropWhile isspace_char s \<noteq> [] \<Longrightarrow> \<not> isspace_char (hd (dropWhile isspace_char s))"
      by (rule hd_dropWhile)
    ultimately have "dropWhile isspace_char s = []"
      by (cases "dropWhile isspace_char s") auto
    then show ?thesis by (simp add: dropWhile_eq_Nil_conv)
  qed
  have "\<not> isdigit (strip x)" if "x \<in> set (split CHR '','' s)" for x
  proof -
    have "\<forall>c \<in> set (strip x). isspace_char c"
      using set_split[OF that] set_strip[of x] all_space by blast
    moreover have "\<not> (isspace_char c \<and> isdigit_char c)" for c
      by (auto simp: isspace_char_def isdigit_char_def isdecimal_char_def)
    ultimately show ?thesis
      by (cases "strip x") (auto simp: isdigit_def)
  qed
  then show ?thesis by (simp add: filter_empty_conv)
qed

lemma parse_human_agents_decimal:
  assumes "\<forall>c \<in> set s. isdigit_char c \<longrightarrow> isdecimal_char c"
    and "\<forall>x \<in> set (split CHR '','' s). length (strip x) \<le> int_max_str_digits"
  shows "parse_human_agents s
           = Inr (map (\<lambda>x. decimal_value (strip x))
                   (filter (\<lambda>x. isdigit (strip x)) (split CHR '','' s)))"
proof (cases "strip s = []")
  case True
  then show ?thesis by (simp add: parse_human_agents_def split_blank)
next
  case False
  have "\<forall>x \<in> set (split CHR '','' s). \<forall>c \<in> set x. isdigit_char c \<longrightarrow> isdecimal_char c"
    using assms(1) set_split by blast
  from convert_tokens_decimal[OF this assms(2)] False show ?thesis
    by (simp add: parse_human_agents_def)
qed

lemma click_registered_button:
  assumes "(b, r) \<in> set create_buttons" and "collidepoint r pos"
  shows "handle_mouse_click pos s = handle_button_action b s"
proof -
  obtain x y where pos: "pos = (x, y)" by (cases pos)
  from assms(1) have "(b, r) = (''Navigator'', Rect 610 650 80 30)
      \<or> (b, r) = (''share'', Rect 700 650 80 30) \<or> (b, r) = (''noop'', Rect 790 650 80 30)
      \<or> (b, r) = (''move_left'', Rect 610 685 80 30)
      \<or> (b, r) = (''move_right'', Rect 700 685 80 30)
      \<or> (b, r) = (''move_up'', Rect 790 685 80 30)
      \<or> (b, r) = (''move_down'', Rect 610 720 80 30) \<or> (b, r) = (''do'', Rect 700 720 80 30)
      \<or> (b, r) = (''sleep'', Rect 790 720 80 30) \<or> (b, r) = (''pause'', Rect 610 750 80 30)
      \<or> (b, r) = (''human_action'', Rect 700 750 80 30)
      \<or> (b, r) = (''help'', Rect 790 750 80 30) \<or> (b, r) = (''inventory'', Rect 880 750 80 30)"
    unfolding create_buttons_eq pause_rect_def human_action_rect_def by simp
  then show ?thesis
    using assms(2) unfolding handle_mouse_click_def create_buttons_eq pause_rect_def
      human_action_rect_def pos
    by (elim disjE) (simp_all add: collidepoint_def Rect_def)
qed

lemma start_designated:
  "current_human_agent s = Some i \<Longrightarrow>
     current_human_agent (start_human_action_selection s) = Some i"
  by (simp add: start_human_action_selection_def print_def split: list.split)

lemma process_input_designated:
  assumes "process_input s = Inr s'"
  shows "current_human_agent s' = current_human_agent s"
    and "length (agents s') = length (agents s)"
    and "current_human_agent s = Some i \<Longrightarrow> j \<noteq> i \<Longrightarrow> agents s' ! j = agents s ! j"
  using assms
  by (auto simp: process_input_def current_agent_def print_def Let_def
      split: if_splits option.splits)

lemma handle_button_action_designated:
  "current_human_agent s = Some i \<Longrightarrow>
     current_human_agent (handle_button_action b s) = Some i"
  "agents (handle_button_action b s) = agents s"
  by (simp_all add: handle_button_action_def start_designated)

lemma click_buttons_designated:
  "current_human_agent s = Some i \<Longrightarrow>
     current_human_agent (click_buttons bs pos s) = Some i"
  "agents (click_buttons bs pos s) = agents s"
  by (induction bs pos s rule: click_buttons.induct)
     (simp_all add: handle_button_action_designated)

lemma handle_normal_event_designated:
  "current_human_agent s = Some i \<Longrightarrow>
     current_human_agent (handle_normal_event k s) = Some i"
  "agents (handle_normal_event k s) = agents s"
  by (simp_all add: handle_normal_event_def start_designated split: option.split)

lemma handle_input_event_designated:
  assumes "handle_input_event k u s = Inr s'"
  shows "current_human_agent s' = current_human_agent s"
    and "length (agents s') = length (agents s)"
    and "current_human_agent s = Some i \<Longrightarrow> j \<noteq> i \<Longrightarrow> agents s' ! j = agents s ! j"
  using assms process_input_designated(1,2)[of s s'] process_input_designated(3)[of s s' i j]
  by (auto simp: handle_input_event_def split: if_splits)

lemma handle_event_designated:
  assumes "handle_event ev s = Inr s'" and "current_human_agent s = Some i"
  shows "current_human_agent s' = Some i"
    and "length (agents s') = length (agents s)"
    and "j \<noteq> i \<Longrightarrow> agents s' ! j = agents s ! j"
proof -
  show "current_human_agent s' = Some i"
    using assms handle_input_event_designated(1)[of _ _ s s']
    by (auto simp: handle_event_def handle_mouse_click_def click_buttons_designated
        handle_normal_event_designated split: event.splits if_splits)
  show "length (agents s') = length (agents s)"
    using assms handle_input_event_designated(2)[of _ _ s s']
    by (auto simp: handle_event_def handle_mouse_click_def click_buttons_designated
        handle_normal_event_designated split: event.splits if_splits)
  show "j \<noteq> i \<Longrightarrow> agents s' ! j = agents s ! j"
    using assms handle_input_event_designated(3)[of _ _ s s' i j]
    by (auto simp: handle_event_def handle_mouse_click_def click_buttons_designated
        handle_normal_event_designated split: event.splits if_splits)
qed

lemma handle_events_designated:
  assumes "handle_events evs s = Inr s'" and "current_human_agent s = Some i"
  shows "current_human_agent s' = Some i \<and> length (agents s') = length (agents s)
         \<and> (\<forall>j. j \<noteq> i \<longrightarrow> agents s' ! j = agents s ! j)"
  using assms
proof (induction evs arbitrary: s)
  case Nil
  then show ?case by simp
next
  case (Cons ev evs)
  from Cons.prems(1) obtain s1 where s1: "handle_event ev s = Inr s1"
    and rest: "handle_events evs s1 = Inr s'"
    by (auto split: sum.splits)
  note d = handle_event_designated[OF s1 Cons.prems(2)]
  from Cons.IH[OF rest d(1)] d(2) d(3) show ?case by simp
qed

lemma run_simulation_step_designated:
  "current_human_agent (run_simulation_step ext s) = current_human_agent s"
  by (simp add: run_simulation_step_def print_def Let_def split: prod.split)

lemma run_loop_designated:
  "run_loop ext batches s = Inr s' \<Longrightarrow> current_human_agent s = Some i \<Longrightarrow>
     current_human_agent s' = Some i"
proof (induction batches arbitrary: s)
  case Nil
  then show ?case by simp
next
  case (Cons evs batches)
  show ?case
  proof (cases "running s")
    case True
    with Cons.prems(1) obtain s1 where s1: "handle_events evs s = Inr s1"
      and rest: "run_loop ext batches (run_simulation_step ext s1) = Inr s'"
      by (auto simp: frame_def Let_def split: sum.splits)
    have "current_human_agent (run_simulation_step ext s1) = Some i"
      using handle_events_designated[OF s1 Cons.prems(2)]
      by (simp add: run_simulation_step_designated)
    from Cons.IH[OF rest this] show ?thesis .
  next
    case False
    with Cons.prems show ?thesis by simp
  qed
qed








lemma buffer_after_typing:
  "isprintable w \<Longrightarrow> buffer_after (typing w) b = b @ w"
proof (induction w arbitrary: b)
  case Nil
  then show ?case by (simp add: buffer_after_def typing_def)
next
  case (Cons c w)
  then have "isprintable [c]" "isprintable w" by (simp_all add: isprintable_def)
  with Cons.IH[of "b @ [c]"] show ?case by (simp add: buffer_after_def typing_def)
qed

section \<open>A complete wizard session\<close>



section \<open>The termination flag of the main loop\<close>

text \<open>
  C2, as stated: \<open>running\<close> becomes false when a window-close event is processed, when
  \<open>current_step\<close> reaches \<open>max_steps\<close> after a tick or when the environment reports done,
  and in no other circumstance. The Escape key pressed in normal mode is another
  circumstance: in the initial state it clears \<open>running\<close>, although the event is not a
  window-close event and no tick has run.
\<close>

theorem escape_key_counterexample:
  "KEYDOWN K_ESCAPE [] \<noteq> QUIT
   \<and> running (init [] 3 350 [] ())
   \<and> current_step (init [] 3 350 [] ()) = 0
   \<and> handle_event (KEYDOWN K_ESCAPE []) (init [] 3 350 [] ())
       = Inr ((init [] 3 350 [] ())\<lparr>running := False\<rparr>)"
  by (simp add: handle_event_def handle_normal_event_def init_def)

text \<open>
  C2, amended. From a state in which \<open>running\<close> is true, an input event that is handled
  without an exception clears \<open>running\<close> exactly when it is a window-close event or a press
  of the Escape key while the wizard is idle; and \<open>run_simulation_step\<close> clears it exactly
  when it performs a tick (not paused, wizard idle) after which the environment has reported
  done or \<open>current_step\<close> has reached \<open>max_steps\<close>.
\<close>

theorem loop_flag_cleared_exactly:
  assumes "running s"
  shows "(\<forall>s'. handle_event ev s = Inr s' \<longrightarrow>
            (\<not> running s' \<longleftrightarrow>
               ev = QUIT \<or> (\<not> input_mode s \<and> (\<exists>unicode. ev = KEYDOWN K_ESCAPE unicode))))
         \<and> (\<not> running (run_simulation_step ext s) \<longleftrightarrow>
               \<not> paused s \<and> \<not> input_mode s
               \<and> (snd (snd (ext (agents s) (env s) (current_step s)))
                    \<or> max_steps s \<le> current_step s + 1))"
proof -
  have ev: "(\<not> running s') =
      (ev = QUIT \<or> (\<not> input_mode s \<and> (\<exists>unicode. ev = KEYDOWN K_ESCAPE unicode)))"
    if "handle_event ev s = Inr s'" for s'
  proof (cases ev)
    case QUIT
    with that show ?thesis by (auto simp: handle_event_def)
  next
    case (KEYDOWN k u)
    show ?thesis
    proof (cases "input_mode s")
      case True
      with that KEYDOWN have "handle_input_event k u s = Inr s'" by (simp add: handle_event_def)
      from handle_input_event_running[OF this] show ?thesis using assms True KEYDOWN by simp
    next
      case False
      with that KEYDOWN have "s' = handle_normal_event k s" by (simp add: handle_event_def)
      then show ?thesis using assms False KEYDOWN by (simp add: handle_normal_event_running)
    qed
  next
    case (MOUSEBUTTONDOWN b pos)
    with that assms show ?thesis
      by (auto simp: handle_event_def handle_mouse_click_def split: if_splits)
  next
    case OTHER_EVENT
    with that assms show ?thesis by (auto simp: handle_event_def)
  qed
  have tick: "(\<not> running (run_simulation_step ext s)) =
      (\<not> paused s \<and> \<not> input_mode s
       \<and> (snd (snd (ext (agents s) (env s) (current_step s))) \<or> max_steps s \<le> current_step s + 1))"
    using assms by (auto simp: run_simulation_step_def print_def Let_def split: prod.splits)
  show ?thesis using ev tick by blast
qed

theorem loop_flag_cleared_exactly_witness:
  "running scenario_gui
   \<and> handle_event QUIT scenario_gui = Inr (scenario_gui\<lparr>running := False\<rparr>)
   \<and> \<not> running (scenario_gui\<lparr>running := False\<rparr>)
   \<and> running (run_simulation_step scenario_ext scenario_gui)"
proof -
  have a: "running scenario_gui" "\<not> paused scenario_gui" "\<not> input_mode scenario_gui"
    "max_steps scenario_gui = 5" "current_step scenario_gui = 0"
    by (simp_all add: scenario_gui_def init_def)
  have q: "handle_event QUIT scenario_gui = Inr (scenario_gui\<lparr>running := False\<rparr>)"
    by (simp add: handle_event_def)
  show ?thesis
    using loop_flag_cleared_exactly[OF a(1), of QUIT scenario_ext] a q
    by (simp add: scenario_ext_def)
qed

section \<open>The tick driver\<close>

text \<open>
  C3. While \<open>paused\<close> is true or the wizard is active, \<open>run_simulation_step\<close> returns the
  state as it is: no collaborator is called, the agents and the environment are untouched
  and \<open>current_step\<close> keeps its value. When neither holds, it makes the collaborator calls
  of one step, once and in order, and adds one to \<open>current_step\<close>. In particular, from a
  paused state with the wizard idle, the key \<open>p\<close> or a left click on the Pause button
  clears \<open>paused\<close>, and the simulation step that follows performs exactly one tick.
\<close>

theorem tick_gated_by_pause_and_wizard:
  "(paused s \<or> input_mode s \<longrightarrow> run_simulation_step ext s = s)
   \<and> (\<not> paused s \<and> \<not> input_mode s \<longrightarrow>
        current_step (run_simulation_step ext s) = current_step s + 1
        \<and> calls (run_simulation_step ext s) = calls s @ step_calls
        \<and> agents (run_simulation_step ext s) = fst (ext (agents s) (env s) (current_step s))
        \<and> env (run_simulation_step ext s) = fst (snd (ext (agents s) (env s) (current_step s))))
   \<and> (paused s \<and> \<not> input_mode s \<longrightarrow>
        handle_event (KEYDOWN K_p unicode) s = Inr (s\<lparr>paused := False\<rparr>)
        \<and> (collidepoint pause_rect pos \<longrightarrow>
             handle_event (MOUSEBUTTONDOWN 1 pos) s = Inr (s\<lparr>paused := False\<rparr>))
        \<and> current_step (run_simulation_step ext (s\<lparr>paused := False\<rparr>)) = current_step s + 1
        \<and> calls (run_simulation_step ext (s\<lparr>paused := False\<rparr>)) = calls s @ step_calls)"
  by (simp add: run_simulation_step_def handle_event_def handle_normal_event_def click_pause
      print_def Let_def split: prod.split)

theorem tick_gated_by_pause_and_wizard_witness:
  "paused (scenario_gui\<lparr>paused := True\<rparr>) \<and> \<not> input_mode (scenario_gui\<lparr>paused := True\<rparr>)
   \<and> collidepoint pause_rect (610, 750)
   \<and> run_simulation_step scenario_ext (scenario_gui\<lparr>paused := True\<rparr>)
       = scenario_gui\<lparr>paused := True\<rparr>
   \<and> handle_event (KEYDOWN K_p ''p'') (scenario_gui\<lparr>paused := True\<rparr>) = Inr scenario_gui
   \<and> handle_event (MOUSEBUTTONDOWN 1 (610, 750)) (scenario_gui\<lparr>paused := True\<rparr>)
       = Inr scenario_gui
   \<and> current_step (run_simulation_step scenario_ext scenario_gui) = 1
   \<and> calls (run_simulation_step scenario_ext scenario_gui) = step_calls"
proof -
  have a: "paused (scenario_gui\<lparr>paused := True\<rparr>)"
    "\<not> input_mode (scenario_gui\<lparr>paused := True\<rparr>)"
    "scenario_gui\<lparr>paused := True\<rparr>\<lparr>paused := False\<rparr> = scenario_gui"
    "current_step (scenario_gui\<lparr>paused := True\<rparr>) = 0"
    "calls (scenario_gui\<lparr>paused := True\<rparr>) = []"
    by (simp_all add: scenario_gui_def init_def)
  have c: "collidepoint pause_rect (610, 750)"
    by (simp add: collidepoint_def pause_rect_def Rect_def)
  show ?thesis
    using tick_gated_by_pause_and_wizard[of "scenario_gui\<lparr>paused := True\<rparr>" scenario_ext
        "''p''" "(610, 750)"] a c
    by simp
qed

section \<open>Defaults of the wizard\<close>

text \<open>
  C4. With the wizard active on a designated agent of valid index, confirming (Return) a
  buffer that is empty after \<open>strip\<close> writes the default of the step to that agent:
  \<open>noop\<close> to \<open>op\<close> at the operation step, \<open>not_applicable\<close> to \<open>rss_to_collect\<close> at the
  collect step, \<open>not_applicable\<close> to \<open>rss_to_share\<close> at the share step and \<open>-1\<close> to
  \<open>target_agent_id\<close> at the target step; at the target step every buffer whose stripped
  content \<open>int\<close> rejects gives \<open>-1\<close> as well.
\<close>

theorem blank_input_defaults:
  assumes "input_mode s" and "current_human_agent s = Some i" and "i < length (agents s)"
  shows "(input_type s = ''op'' \<and> strip (input_field s) = [] \<longrightarrow>
            (\<exists>s'. handle_event (KEYDOWN K_RETURN unicode) s = Inr s'
                  \<and> op (agents s' ! i) = ''noop''))
         \<and> (input_type s = ''collect'' \<and> strip (input_field s) = [] \<longrightarrow>
            (\<exists>s'. handle_event (KEYDOWN K_RETURN unicode) s = Inr s'
                  \<and> rss_to_collect (agents s' ! i) = ''not_applicable''))
         \<and> (input_type s = ''share'' \<and> strip (input_field s) = [] \<longrightarrow>
            (\<exists>s'. handle_event (KEYDOWN K_RETURN unicode) s = Inr s'
                  \<and> rss_to_share (agents s' ! i) = ''not_applicable''))
         \<and> (input_type s = ''target''
              \<and> (strip (input_field s) = [] \<or> py_int (strip (input_field s)) = None) \<longrightarrow>
            (\<exists>s'. handle_event (KEYDOWN K_RETURN unicode) s = Inr s'
                  \<and> target_agent_id (agents s' ! i) = - 1))"
proof -
  have ret: "handle_event (KEYDOWN K_RETURN unicode) s = process_input s"
    using assms(1) by (simp add: handle_event_def handle_input_event_def)
  have ca: "current_agent s = Inr (i, agents s ! i)"
    using assms by (simp add: current_agent_valid)
  have "strip (input_field s) = [] \<Longrightarrow> py_int (strip (input_field s)) = None"
    by (rule strip_idem_blank)
  then show ?thesis
    using assms(3)
    by (auto simp: ret ca process_input_def default_if_blank_def parse_target_def print_def Let_def)
qed

theorem blank_input_defaults_witness:
  "input_mode (start_human_action_selection scenario_gui\<lparr>input_field := ''  ''\<rparr>)
   \<and> current_human_agent (start_human_action_selection scenario_gui\<lparr>input_field := ''  ''\<rparr>)
       = Some 1
   \<and> 1 < length (agents (start_human_action_selection scenario_gui\<lparr>input_field := ''  ''\<rparr>))
   \<and> input_type (start_human_action_selection scenario_gui\<lparr>input_field := ''  ''\<rparr>) = ''op''
   \<and> strip (input_field (start_human_action_selection scenario_gui\<lparr>input_field := ''  ''\<rparr>))
       = []
   \<and> map_sum id (\<lambda>s'. op (agents s' ! 1))
        (handle_event (KEYDOWN K_RETURN [])
           (start_human_action_selection scenario_gui\<lparr>input_field := ''  ''\<rparr>))
       = Inr ''noop''"
proof -
  let ?s = "start_human_action_selection scenario_gui\<lparr>input_field := ''  ''\<rparr>"
  have a: "input_mode ?s" "current_human_agent ?s = Some 1" "1 < length (agents ?s)"
    "input_type ?s = ''op''"
    by (simp_all add: scenario_started) (simp add: scenario_gui_def init_def)
  have b: "strip (input_field ?s) = []"
    by (simp add: strip_def isspace_char_def code_def)
  show ?thesis
    using blank_input_defaults[OF a(1) a(2) a(3), of "[]"] a b by auto
qed

section \<open>Cancelling the wizard\<close>

text \<open>
  C5. In every state in which the wizard is active, whatever was confirmed before, the
  cancel key (Escape) returns the wizard to idle: \<open>input_mode\<close> is false, the step
  \<open>input_type\<close> and the text buffer are empty, and the event writes no field of any agent
  (the agents are the same list as before, and so is the designated agent).
\<close>

theorem cancel_returns_to_idle:
  assumes "input_mode s"
  shows "handle_event (KEYDOWN K_ESCAPE unicode) s
           = Inr (s\<lparr>input_mode := False, input_field := [], input_type := []\<rparr>)
         \<and> (\<exists>s'. handle_events [KEYDOWN K_ESCAPE unicode] s = Inr s'
                \<and> \<not> input_mode s' \<and> input_type s' = [] \<and> input_field s' = []
                \<and> agents s' = agents s \<and> current_human_agent s' = current_human_agent s)"
  using assms by (simp add: handle_event_def handle_input_event_def)

theorem cancel_returns_to_idle_witness:
  "input_mode (start_human_action_selection scenario_gui)
   \<and> handle_event (KEYDOWN K_ESCAPE []) (start_human_action_selection scenario_gui)
       = Inr (scenario_gui\<lparr>current_human_agent := Some 1, input_prompt := operation_prompt 1\<rparr>)
   \<and> handle_events [KEYDOWN K_ESCAPE []] (start_human_action_selection scenario_gui)
       = Inr (scenario_gui\<lparr>current_human_agent := Some 1, input_prompt := operation_prompt 1\<rparr>)"
  using cancel_returns_to_idle[of "start_human_action_selection scenario_gui" "[]"]
  by (simp add: scenario_started) (simp add: scenario_gui_def init_def)

section \<open>Wizard entry without human agents\<close>

text \<open>
  C6. When no agent of the population is human-capable, a request to enter the wizard, by
  the key \<open>h\<close> in normal mode or by a left click on the Human Action button, raises nothing
  and changes nothing but the printed output, which gains the line
  \<open>No human agents available\<close>: the wizard state, the designated agent and every agent
  are as before.
\<close>

theorem entry_without_human_agents:
  assumes "\<forall>a \<in> set (agents s). \<not> is_human a"
  shows "start_human_action_selection s = s\<lparr>printed := printed s @ [''No human agents available'']\<rparr>
         \<and> (\<not> input_mode s \<longrightarrow>
              handle_event (KEYDOWN K_h unicode) s
                = Inr (s\<lparr>printed := printed s @ [''No human agents available'']\<rparr>))
         \<and> (collidepoint human_action_rect pos \<longrightarrow>
              handle_event (MOUSEBUTTONDOWN 1 pos) s
                = Inr (s\<lparr>printed := printed s @ [''No human agents available'']\<rparr>))"
  using start_without_humans[OF assms]
  by (simp add: handle_event_def handle_normal_event_def click_human_action print_def)

theorem entry_without_human_agents_witness:
  "human_agents scenario_no_humans = []
   \<and> \<not> input_mode scenario_no_humans
   \<and> collidepoint human_action_rect (700, 750)
   \<and> handle_event (KEYDOWN K_h ''h'') scenario_no_humans
       = Inr (scenario_no_humans\<lparr>printed := controls_help @ [''No human agents available'']\<rparr>)
   \<and> handle_event (MOUSEBUTTONDOWN 1 (700, 750)) scenario_no_humans
       = Inr (scenario_no_humans\<lparr>printed := controls_help @ [''No human agents available'']\<rparr>)"
proof -
  have a: "\<forall>a \<in> set (agents scenario_no_humans). \<not> is_human a"
    by (simp add: scenario_no_humans_def init_def scenario_agent_def)
  have b: "\<not> input_mode scenario_no_humans" "printed scenario_no_humans = controls_help"
    by (simp_all add: scenario_no_humans_def init_def)
  have c: "collidepoint human_action_rect (700, 750)"
    by (simp add: collidepoint_def human_action_rect_def Rect_def)
  show ?thesis
    using entry_without_human_agents[OF a, of "''h''" "(700, 750)"] a b c
    by (simp add: human_agents_empty)
qed

section \<open>The invariant of the wizard\<close>

text \<open>
  C7. The invariant of the wizard state, \<open>input_mode\<close> is true exactly when \<open>input_type\<close>
  is not empty, and an agent index is designated whenever \<open>input_mode\<close> is true, holds in
  the initial state and is kept by every operation that returns: wizard entry, confirming,
  every single event (cancel, text editing, the normal-mode keys, the buttons), the events
  of a frame, the simulation step and the main loop over any event batches.
\<close>

theorem wizard_invariant_holds:
  "wizard_invariant (init ids n m ags e)
   \<and> (wizard_invariant s \<longrightarrow>
        wizard_invariant (start_human_action_selection s)
        \<and> (\<forall>s'. process_input s = Inr s' \<longrightarrow> wizard_invariant s')
        \<and> (\<forall>s'. handle_event ev s = Inr s' \<longrightarrow> wizard_invariant s')
        \<and> (\<forall>s'. handle_events evs s = Inr s' \<longrightarrow> wizard_invariant s')
        \<and> wizard_invariant (run_simulation_step ext s)
        \<and> (\<forall>s'. run_loop ext batches s = Inr s' \<longrightarrow> wizard_invariant s'))"
proof (intro conjI impI allI)
  show "wizard_invariant (init ids n m ags e)"
    by (simp add: wizard_invariant_def init_def)
next
  assume "wizard_invariant s"
  then show "wizard_invariant (start_human_action_selection s)"
    by (rule start_preserves_invariant)
next
  fix s' assume "wizard_invariant s" "process_input s = Inr s'"
  then show "wizard_invariant s'" by (rule process_input_preserves_invariant)
next
  fix s' assume "wizard_invariant s" "handle_event ev s = Inr s'"
  then show "wizard_invariant s'" by (rule handle_event_preserves_invariant)
next
  fix s' assume "wizard_invariant s" "handle_events evs s = Inr s'"
  then show "wizard_invariant s'" by (rule handle_events_preserves_invariant)
next
  assume "wizard_invariant s"
  then show "wizard_invariant (run_simulation_step ext s)"
    by (rule run_simulation_step_preserves_invariant)
next
  fix s' assume "wizard_invariant s" "run_loop ext batches s = Inr s'"
  then show "wizard_invariant s'" by (rule run_loop_preserves_invariant)
qed

theorem wizard_invariant_holds_witness:
  "wizard_invariant scenario_gui
   \<and> wizard_invariant (start_human_action_selection scenario_gui)
   \<and> handle_event (KEYDOWN K_h ''h'') scenario_gui
       = Inr (start_human_action_selection scenario_gui)
   \<and> input_mode (start_human_action_selection scenario_gui)
   \<and> input_type (start_human_action_selection scenario_gui) = ''op''
   \<and> current_human_agent (start_human_action_selection scenario_gui) = Some 1"
proof -
  have a: "wizard_invariant scenario_gui"
    using wizard_invariant_holds[of "[1]" 2 5 "[scenario_agent, scenario_agent\<lparr>is_human := True\<rparr>]"
        "()" scenario_gui QUIT "[]" scenario_ext "[]"]
    by (simp add: scenario_gui_def)
  have b: "handle_event (KEYDOWN K_h ''h'') scenario_gui
             = Inr (start_human_action_selection scenario_gui)"
    by (simp add: handle_event_def handle_normal_event_def scenario_gui_def init_def)
  show ?thesis
    using wizard_invariant_holds[of "[1]" 2 5 "[]" "()" scenario_gui "KEYDOWN K_h ''h''" "[]"
        scenario_ext "[]"] a b
    by (simp add: scenario_started)
qed

section \<open>Parsing the human agent ids\<close>

text \<open>
  C8 says that every \<open>--human_agents\<close> string yields the list of its tokens that consist
  of digits only, converted in order, every other token being dropped silently. The token
  that consists of the superscript two (U+00B2) passes the filter \<open>x.strip().isdigit()\<close>,
  but \<open>int\<close> rejects it: parsing such a string raises \<open>ValueError\<close>, so the token is
  neither converted nor dropped and no list results. For every string whose digit
  characters are all decimal digits and whose tokens, stripped, have at most 4300
  characters (the digit limit of \<open>int\<close>), the parser does what C8 says (lemma
  \<open>parse_human_agents_decimal\<close>).
\<close>

theorem parse_human_agents_superscript:
  "isdigit (strip [CHR 0xB2]) \<and> py_int (strip [CHR 0xB2]) = None
   \<and> parse_human_agents [CHR 0xB2] = Inl ValueError
   \<and> parse_human_agents (''0,'' @ [CHR 0xB2] @ '',2'') = Inl ValueError"
  by (simp add: parse_human_agents_def strip_def isspace_char_def code_def isdigit_def
      isdigit_char_def py_int_def int_strip_def int_space_char_def unsigned_literal_def
      isdecimal_char_def)

section \<open>Mouse clicks while the wizard is active\<close>

text \<open>
  C9. A left mouse press is handled by \<open>handle_mouse_click\<close> whether or not the wizard is
  active, so a click inside the rectangle of a registered button fires the action of that
  button in every state. In particular, with the wizard active and a human-capable agent in
  the population, a click on the Human Action button puts the wizard back to the operation
  step with an empty buffer and writes no agent field; and a click on the Pause button
  toggles \<open>paused\<close> while the wizard stays as it is.
\<close>

theorem clicks_ignore_wizard_mode:
  "handle_event (MOUSEBUTTONDOWN 1 pos) s = Inr (handle_mouse_click pos s)
   \<and> ((b, r) \<in> set create_buttons \<and> collidepoint r pos \<longrightarrow>
        handle_event (MOUSEBUTTONDOWN 1 pos) s = Inr (handle_button_action b s))
   \<and> (input_mode s \<and> human_agents s \<noteq> [] \<and> collidepoint human_action_rect pos \<longrightarrow>
        (\<exists>s'. handle_event (MOUSEBUTTONDOWN 1 pos) s = Inr s'
              \<and> input_mode s' \<and> input_type s' = ''op'' \<and> input_field s' = []
              \<and> agents s' = agents s \<and> paused s' = paused s))
   \<and> (input_mode s \<and> collidepoint pause_rect pos \<longrightarrow>
        handle_event (MOUSEBUTTONDOWN 1 pos) s = Inr (s\<lparr>paused := \<not> paused s\<rparr>))"
proof (intro conjI impI)
  show "handle_event (MOUSEBUTTONDOWN 1 pos) s = Inr (handle_mouse_click pos s)"
    by (simp add: handle_event_def)
next
  assume "(b, r) \<in> set create_buttons \<and> collidepoint r pos"
  then show "handle_event (MOUSEBUTTONDOWN 1 pos) s = Inr (handle_button_action b s)"
    using click_registered_button[of b r pos s] by (simp add: handle_event_def)
next
  assume a: "input_mode s \<and> human_agents s \<noteq> [] \<and> collidepoint human_action_rect pos"
  then have "handle_event (MOUSEBUTTONDOWN 1 pos) s = Inr (start_human_action_selection s)"
    by (simp add: handle_event_def click_human_action)
  moreover have "input_mode (start_human_action_selection s)"
    "input_type (start_human_action_selection s) = ''op''"
    "input_field (start_human_action_selection s) = []"
    using a by (simp_all add: start_human_action_selection_def Let_def split: list.splits)
  ultimately show "\<exists>s'. handle_event (MOUSEBUTTONDOWN 1 pos) s = Inr s'
      \<and> input_mode s' \<and> input_type s' = ''op'' \<and> input_field s' = []
      \<and> agents s' = agents s \<and> paused s' = paused s"
    by simp
next
  assume "input_mode s \<and> collidepoint pause_rect pos"
  then show "handle_event (MOUSEBUTTONDOWN 1 pos) s = Inr (s\<lparr>paused := \<not> paused s\<rparr>)"
    by (simp add: handle_event_def click_pause)
qed

theorem clicks_ignore_wizard_mode_witness:
  "input_mode (start_human_action_selection scenario_gui\<lparr>input_type := ''share'', input_field := ''wo''\<rparr>)
   \<and> human_agents (start_human_action_selection scenario_gui\<lparr>input_type := ''share'', input_field := ''wo''\<rparr>) \<noteq> []
   \<and> (''human_action'', human_action_rect) \<in> set create_buttons
   \<and> collidepoint human_action_rect (700, 750) \<and> collidepoint pause_rect (610, 750)
   \<and> handle_event (MOUSEBUTTONDOWN 1 (700, 750))
        (start_human_action_selection scenario_gui\<lparr>input_type := ''share'', input_field := ''wo''\<rparr>)
       = Inr (start_human_action_selection scenario_gui)
   \<and> handle_event (MOUSEBUTTONDOWN 1 (610, 750))
        (start_human_action_selection scenario_gui\<lparr>input_type := ''share'', input_field := ''wo''\<rparr>)
       = Inr (start_human_action_selection scenario_gui\<lparr>input_type := ''share'', input_field := ''wo'', paused := True\<rparr>)"
proof -
  let ?s = "start_human_action_selection scenario_gui\<lparr>input_type := ''share'', input_field := ''wo''\<rparr>"
  have a: "input_mode ?s" "human_agents ?s \<noteq> []" "\<not> paused ?s"
    by (simp_all add: scenario_started human_agents_def)
       (simp_all add: scenario_gui_def init_def scenario_agent_def)
  have m: "(''human_action'', human_action_rect) \<in> set create_buttons"
    by (simp add: create_buttons_eq)
  have c: "collidepoint human_action_rect (700, 750)" "collidepoint pause_rect (610, 750)"
    by (simp_all add: collidepoint_def human_action_rect_def pause_rect_def Rect_def)
  have h: "handle_button_action ''human_action'' ?s = start_human_action_selection scenario_gui"
    by (simp add: handle_button_action_def scenario_started)
       (simp add: start_human_action_selection_def human_agents_def scenario_gui_def init_def
         scenario_agent_def)
  have "handle_event (MOUSEBUTTONDOWN 1 (700, 750)) ?s
          = Inr (handle_button_action ''human_action'' ?s)"
    using clicks_ignore_wizard_mode[of "(700, 750)" ?s "''human_action''" human_action_rect]
      m c(1)
    by blast
  then have "handle_event (MOUSEBUTTONDOWN 1 (700, 750)) ?s
          = Inr (start_human_action_selection scenario_gui)"
    by (simp only: h)
  moreover have "handle_event (MOUSEBUTTONDOWN 1 (610, 750)) ?s = Inr (?s\<lparr>paused := \<not> paused ?s\<rparr>)"
    using clicks_ignore_wizard_mode[of "(610, 750)" ?s "''pause''" pause_rect] a(1) c(2)
    by blast
  ultimately show ?thesis using a m c by simp
qed

section \<open>The designated agent\<close>

text \<open>
  C10. On the first wizard entry, when no agent is designated yet, the designated agent
  becomes the human-capable agent of lowest index. Once an agent \<open>i\<close> is designated, it
  stays designated: wizard entry, confirming, the events of a frame, the simulation step
  and the main loop over any event batches all leave \<open>current_human_agent\<close> at \<open>i\<close>, and
  the events of a frame and confirming write to no agent other than \<open>i\<close>, however many
  other human-capable agents there are.
\<close>

theorem designated_agent_never_changes:
  "(current_human_agent s = None \<and> human_agents s = h # hs \<longrightarrow>
      current_human_agent (start_human_action_selection s) = Some h
      \<and> h < length (agents s) \<and> is_human (agents s ! h)
      \<and> (\<forall>j. j < h \<longrightarrow> \<not> is_human (agents s ! j)))
   \<and> (current_human_agent s = Some i \<longrightarrow>
      current_human_agent (start_human_action_selection s) = Some i
      \<and> current_human_agent (run_simulation_step ext s) = Some i
      \<and> (\<forall>s'. process_input s = Inr s' \<longrightarrow>
            current_human_agent s' = Some i
            \<and> (\<forall>j. j \<noteq> i \<longrightarrow> agents s' ! j = agents s ! j))
      \<and> (\<forall>s'. handle_events evs s = Inr s' \<longrightarrow>
            current_human_agent s' = Some i
            \<and> (\<forall>j. j \<noteq> i \<longrightarrow> agents s' ! j = agents s ! j))
      \<and> (\<forall>s'. run_loop ext batches s = Inr s' \<longrightarrow> current_human_agent s' = Some i))"
proof (intro conjI impI allI)
  assume a: "current_human_agent s = None \<and> human_agents s = h # hs"
  then show "current_human_agent (start_human_action_selection s) = Some h"
    by (simp add: start_human_action_selection_def)
  from a human_agents_first[of s h hs]
  show "h < length (agents s)" "is_human (agents s ! h)"
    by simp_all
  fix j assume "j < h"
  with a human_agents_first[of s h hs] show "\<not> is_human (agents s ! j)" by simp
next
  assume "current_human_agent s = Some i"
  then show "current_human_agent (start_human_action_selection s) = Some i"
    by (rule start_designated)
next
  assume "current_human_agent s = Some i"
  then show "current_human_agent (run_simulation_step ext s) = Some i"
    by (simp add: run_simulation_step_designated)
next
  fix s' assume "current_human_agent s = Some i" "process_input s = Inr s'"
  then show "current_human_agent s' = Some i"
    using process_input_designated(1)[of s s'] by simp
next
  fix s' j assume "current_human_agent s = Some i" "process_input s = Inr s'" "j \<noteq> i"
  then show "agents s' ! j = agents s ! j"
    using process_input_designated(3)[of s s' i j] by simp
next
  fix s' assume "current_human_agent s = Some i" "handle_events evs s = Inr s'"
  then show "current_human_agent s' = Some i"
    using handle_events_designated[of evs s s' i] by simp
next
  fix s' j assume "current_human_agent s = Some i" "handle_events evs s = Inr s'" "j \<noteq> i"
  then show "agents s' ! j = agents s ! j"
    using handle_events_designated[of evs s s' i] by simp
next
  fix s' assume "current_human_agent s = Some i" "run_loop ext batches s = Inr s'"
  then show "current_human_agent s' = Some i"
    using run_loop_designated[of ext batches s s' i] by simp
qed

theorem designated_agent_never_changes_witness:
  "current_human_agent scenario_two_humans = None
   \<and> human_agents scenario_two_humans = [1, 2]
   \<and> current_human_agent (start_human_action_selection scenario_two_humans) = Some 1
   \<and> handle_events [KEYDOWN K_RETURN [], KEYDOWN K_ESCAPE [], KEYDOWN K_h ''h'']
        (start_human_action_selection scenario_two_humans)
       = Inr (start_human_action_selection scenario_two_humans
               \<lparr>agents := [scenario_agent, scenario_agent\<lparr>is_human := True, op := ''noop''\<rparr>,
                            scenario_agent\<lparr>is_human := True\<rparr>]\<rparr>)
   \<and> current_human_agent
        (start_human_action_selection scenario_two_humans
           \<lparr>agents := [scenario_agent, scenario_agent\<lparr>is_human := True, op := ''noop''\<rparr>,
                        scenario_agent\<lparr>is_human := True\<rparr>]\<rparr>) = Some 1"
proof -
  let ?s1 = "start_human_action_selection scenario_two_humans"
  let ?s2 = "?s1\<lparr>agents := [scenario_agent, scenario_agent\<lparr>is_human := True, op := ''noop''\<rparr>,
                          scenario_agent\<lparr>is_human := True\<rparr>]\<rparr>"
  have a: "current_human_agent scenario_two_humans = None"
    "human_agents scenario_two_humans = [1, 2]"
    by (simp_all add: scenario_two_humans_def init_def human_agents_def scenario_agent_def)
  have s1: "?s1 = scenario_two_humans\<lparr>current_human_agent := Some 1, input_mode := True,
      input_type := ''op'', input_prompt := operation_prompt 1, input_field := []\<rparr>"
    using a by (simp add: start_human_action_selection_def)
  have first: "current_human_agent ?s1 = Some 1"
    using designated_agent_never_changes[of scenario_two_humans 1 "[2]" 0 scenario_ext "[]" "[]"] a
    by simp
  have ev: "handle_events [KEYDOWN K_RETURN [], KEYDOWN K_ESCAPE [], KEYDOWN K_h ''h''] ?s1
              = Inr ?s2"
    unfolding s1
    by (simp add: handle_event_def handle_input_event_def handle_normal_event_def
        process_input_def current_agent_def default_if_blank_def strip_def
        start_human_action_selection_def human_agents_def scenario_two_humans_def init_def
        scenario_agent_def)
  have "current_human_agent ?s2 = Some 1"
    using designated_agent_never_changes[of ?s1 1 "[2]" 1 scenario_ext
        "[KEYDOWN K_RETURN [], KEYDOWN K_ESCAPE [], KEYDOWN K_h ''h'']" "[]"] first ev
    by blast
  then show ?thesis using a first ev by simp
qed

end
